theory Spec2Isabelle
  imports Complex_Main
begin

section \<open>qudy control waveforms: data model\<close>

text \<open>
  The source is Python 2 over numpy arrays. An array has an element type, \<open>float64\<close> or
  \<open>int64\<close>, and its entries are kept as the real numbers they denote. Where the source
  stores the result of an operation in an array, the model applies the rounding or the
  conversion of the element type: \<open>fl\<close> rounds to the nearest \<open>float64\<close>, an integer
  entry becomes a float by \<open>fl\<close>, a float stored into an integer array is truncated.
  The infinities and NaN are not modelled: a result beyond the largest \<open>float64\<close> stands
  for an overflow. Where the source returns a Python scalar (\<open>interpolate\<close>,
  \<open>arc_length\<close>), the scalar arithmetic is exact.

  Exceptions of the source are values of \<open>error\<close>; a function that may raise returns
  \<open>error + 'a\<close> with \<open>Inl\<close> for the exception.
\<close>

datatype error = TypeError | ValueError | IndexError | IOError | AttributeError

text \<open>Dynamically typed option and parameter values (keyword arguments, policy names).\<close>

datatype pyval = PNone | PBool bool | PStr string | PNum real

datatype dtype = Int64 | Float64

text \<open>
  A numpy array argument: one-dimensional, or two-dimensional with its column count
  \<open>shape[1]\<close> kept beside the rows (the count is still known when there is no row).
\<close>

datatype ndarray = Arr1 dtype "real list" | Arr2 dtype nat "real list list"

text \<open>
  A positional constructor argument: an object with \<open>__array__\<close>, a callable (with the
  element type of the array its samples make), or anything else.
\<close>

datatype pyarg = ArrayArg ndarray | FuncArg dtype "real \<Rightarrow> real" | ObjArg

text \<open>
  A scalar as \<open>interpolate\<close> holds it in \<open>t_low\<close> and \<open>t_high\<close>: either an element taken
  out of a numpy array by the builtin \<open>max\<close>/\<open>min\<close> (a numpy scalar), or the builtin float
  that \<open>timemin()\<close>/\<open>timemax()\<close> return through \<open>float(...)\<close>.
\<close>

datatype pyscalar = NpFloat real | PyFloat real

fun scalar_val :: "pyscalar \<Rightarrow> real" where
  "scalar_val (NpFloat x) = x"
| "scalar_val (PyFloat x) = x"

text \<open>
  The class \<open>control\<close>. \<open>self.times\<close> is an \<open>(n,1)\<close> column array and is kept as the list
  of its \<open>n\<close> entries; \<open>self.control\<close> is the \<open>(n,k)\<close> array of component values, kept as
  its list of rows, with \<open>k\<close> in \<open>number_controls\<close>. The last two fields are the element
  types of the two arrays.
\<close>

record control =
  times_c :: "real list"
  control :: "real list list"
  number_controls :: nat
  dimension :: nat
  interpolation :: string
  verbose :: bool
  times_dtype :: dtype
  control_dtype :: dtype

section \<open>Element types: rounding and conversion\<close>

text \<open>Rounding to the nearest integer, ties to the even one.\<close>

definition round_even :: "real \<Rightarrow> int" where
  "round_even x =
     (let f = \<lfloor>x\<rfloor>; d = x - of_int f
      in if d < 1 / 2 then f else if 1 / 2 < d then f + 1 else if even f then f else f + 1)"

text \<open>Rounding to the nearest multiple of \<open>b ^ e\<close>.\<close>

definition round_to :: "real \<Rightarrow> int \<Rightarrow> real \<Rightarrow> real" where
  "round_to b e x = of_int (round_even (x / b powr of_int e)) * b powr of_int e"

text \<open>
  IEEE 754 binary64, round to nearest even: 53 significant bits, the exponent of the
  leading bit not below -1022 (below it the subnormal numbers share the spacing
  \<open>2 ^ -1074\<close>).
\<close>

definition fexp :: "real \<Rightarrow> int" where
  "fexp x = max \<lfloor>log 2 \<bar>x\<bar>\<rfloor> (- 1022)"

definition fl :: "real \<Rightarrow> real" where
  "fl x = round_to 2 (fexp x - 52) x"

text \<open>The difference of two floats, as stored.\<close>

definition fsub :: "real \<Rightarrow> real \<Rightarrow> real" where
  "fsub a b = fl (a - b)"

text \<open>Truncation towards zero.\<close>

definition trunc :: "real \<Rightarrow> real" where
  "trunc x = (if x < 0 then of_int \<lceil>x\<rceil> else of_int \<lfloor>x\<rfloor>)"

text \<open>
  Conversion of an entry from one element type to another (\<open>astype\<close>, and what an
  assignment into an array does): an integer becomes the nearest float; a float becomes
  an integer by truncation, and the smallest \<open>int64\<close> when it is out of range, as the
  conversion instruction of x86-64 gives it.
\<close>

fun cast :: "dtype \<Rightarrow> dtype \<Rightarrow> real \<Rightarrow> real" where
  "cast Int64 Float64 x = fl x"
| "cast Float64 Int64 x =
     (if - (2 ^ 63) \<le> trunc x \<and> trunc x < 2 ^ 63 then trunc x else - (2 ^ 63))"
| "cast Int64 Int64 x = x"
| "cast Float64 Float64 x = x"

text \<open>\<open>float(x)\<close> of an array element.\<close>

definition to_float :: "dtype \<Rightarrow> real \<Rightarrow> real" where
  "to_float dt x = cast dt Float64 x"

text \<open>The common element type of two arrays that are combined.\<close>

definition result_type :: "dtype \<Rightarrow> dtype \<Rightarrow> dtype" where
  "result_type a b = (if a = Int64 \<and> b = Int64 then Int64 else Float64)"

text \<open>Negation in an array: \<open>int64\<close> wraps around at its smallest value.\<close>

fun negate :: "dtype \<Rightarrow> real \<Rightarrow> real" where
  "negate Float64 x = - x"
| "negate Int64 x = (if x = - (2 ^ 63) then x else - x)"

text \<open>The largest finite \<open>float64\<close>, and what an array of an element type can hold.\<close>

definition max_float :: real where
  "max_float = (2 ^ 53 - 1) * 2 ^ 971"

fun holds :: "dtype \<Rightarrow> real \<Rightarrow> bool" where
  "holds Float64 x \<longleftrightarrow> fl x = x \<and> \<bar>x\<bar> \<le> max_float"
| "holds Int64 x \<longleftrightarrow> of_int \<lfloor>x\<rfloor> = x \<and> - (2 ^ 63) \<le> x \<and> x < 2 ^ 63"

section \<open>Builtins and array access\<close>

text \<open>The builtins \<open>min\<close> and \<open>max\<close>: \<open>ValueError\<close> on an empty sequence.\<close>

fun py_min :: "real list \<Rightarrow> error + real" where
  "py_min [] = Inl ValueError"
| "py_min (x # xs) = Inr (fold min xs x)"

fun py_max :: "real list \<Rightarrow> error + real" where
  "py_max [] = Inl ValueError"
| "py_max (x # xs) = Inr (fold max xs x)"

text \<open>\<open>timemin()\<close> and \<open>timemax()\<close> return \<open>float(min(self.times))\<close>, \<open>float(max(self.times))\<close>.\<close>

definition timemin :: "control \<Rightarrow> error + real" where
  "timemin self =
     (case py_min (times_c self) of
        Inl e \<Rightarrow> Inl e
      | Inr m \<Rightarrow> Inr (to_float (times_dtype self) m))"

definition timemax :: "control \<Rightarrow> error + real" where
  "timemax self =
     (case py_max (times_c self) of
        Inl e \<Rightarrow> Inl e
      | Inr m \<Rightarrow> Inr (to_float (times_dtype self) m))"

text \<open>
  \<open>self.times.tolist().index(x)\<close>. Since \<open>self.times\<close> has shape \<open>(n,1)\<close>, \<open>tolist()\<close> is
  a list of one-element lists \<open>[[t0], [t1], ...]\<close>, and \<open>index\<close> returns the first position
  whose row compares equal to \<open>x\<close> with \<open>==\<close>, raising \<open>ValueError\<close> when there is none.
  A list never equals a builtin float, so the search fails for a \<open>PyFloat\<close>; against a
  numpy scalar the comparison is numpy's elementwise one, which is true for the row
  holding the same number.
\<close>

fun index_from :: "real list \<Rightarrow> real \<Rightarrow> nat \<Rightarrow> error + nat" where
  "index_from [] x i = Inl ValueError"
| "index_from (t # ts) x i = (if t = x then Inr i else index_from ts x (Suc i))"

fun tolist_index :: "real list \<Rightarrow> pyscalar \<Rightarrow> error + nat" where
  "tolist_index ts (PyFloat x) = Inl ValueError"
| "tolist_index ts (NpFloat x) = index_from ts x 0"

text \<open>\<open>A[i, :]\<close> and \<open>A[i, j]\<close> for non-negative indices.\<close>

definition row_at :: "real list list \<Rightarrow> nat \<Rightarrow> error + real list" where
  "row_at A i = (if i < length A then Inr (A ! i) else Inl IndexError)"

definition elem_at :: "real list list \<Rightarrow> nat \<Rightarrow> nat \<Rightarrow> error + real" where
  "elem_at A i j =
     (if i < length A \<and> j < length (A ! i) then Inr (A ! i ! j) else Inl IndexError)"

text \<open>
  \<open>numpy.interp(x, [x0, x1], [y0, y1])\<close> on two nodes: the end values outside the
  nodes and on them, the chord in between.
\<close>

definition interp :: "real \<Rightarrow> real \<times> real \<Rightarrow> real \<times> real \<Rightarrow> real" where
  "interp x tp yp =
     (if x \<le> fst tp then fst yp
      else if snd tp \<le> x then snd yp
      else fst yp + (snd yp - fst yp) / (snd tp - fst tp) * (x - fst tp))"

section \<open>Interpolation\<close>

text \<open>
  The loop of the \<open>linear\<close> branch: for each component index, interpolate between the
  entries of the two rows and append to \<open>interp_controls\<close>.
\<close>

fun linear_loop ::
  "control \<Rightarrow> real \<Rightarrow> pyscalar \<Rightarrow> pyscalar \<Rightarrow> nat \<Rightarrow> nat \<Rightarrow> nat list \<Rightarrow> real list
     \<Rightarrow> error + real list" where
  "linear_loop self time t_low t_high index_low index_high [] interp_controls =
     Inr interp_controls"
| "linear_loop self time t_low t_high index_low index_high (index # rest) interp_controls =
     (case elem_at (control self) index_low index of
        Inl e \<Rightarrow> Inl e
      | Inr y_low \<Rightarrow>
          (case elem_at (control self) index_high index of
             Inl e \<Rightarrow> Inl e
           | Inr y_high \<Rightarrow>
               linear_loop self time t_low t_high index_low index_high rest
                 (interp_controls
                    @ [interp time (scalar_val t_low, scalar_val t_high) (y_low, y_high)])))"

text \<open>
  \<open>control.interpolate(time, interpolation)\<close>. The masks \<open>self.times - time < 0\<close> and
  \<open>self.times - time > 0\<close> are strict; when a mask selects nothing, \<open>max\<close>/\<open>min\<close> raise
  \<open>ValueError\<close> and the handler takes \<open>timemin()\<close>/\<open>timemax()\<close> instead.
\<close>

definition interpolate :: "control \<Rightarrow> real \<Rightarrow> pyval \<Rightarrow> error + real list" where
  "interpolate self time interpolation_arg =
     (let interpolation_name =
            (if interpolation_arg = PNone then PStr (interpolation self) else interpolation_arg)
      in case timemin self of
           Inl e \<Rightarrow> Inl e
         | Inr tmin \<Rightarrow>
             (case timemax self of
                Inl e \<Rightarrow> Inl e
              | Inr tmax \<Rightarrow>
                  if time < tmin \<or> time > tmax then Inl ValueError
                  else
                    let t_low =
                          (case py_max (filter (\<lambda>t. t - time < 0) (times_c self)) of
                             Inr m \<Rightarrow> NpFloat m
                           | Inl e \<Rightarrow> PyFloat tmin);
                        t_high =
                          (case py_min (filter (\<lambda>t. t - time > 0) (times_c self)) of
                             Inr m \<Rightarrow> NpFloat m
                           | Inl e \<Rightarrow> PyFloat tmax)
                    in case tolist_index (times_c self) t_low of
                         Inl e \<Rightarrow> Inl e
                       | Inr index_low \<Rightarrow>
                           (case tolist_index (times_c self) t_high of
                              Inl e \<Rightarrow> Inl e
                            | Inr index_high \<Rightarrow>
                                if interpolation_name = PStr ''latest''
                                then row_at (control self) index_low
                                else if interpolation_name = PStr ''nearest''
                                then (if time - scalar_val t_low \<le> scalar_val t_high - time
                                      then row_at (control self) index_low
                                      else row_at (control self) index_high)
                                else if interpolation_name = PStr ''linear''
                                then linear_loop self time t_low t_high index_low index_high
                                       [0 ..< number_controls self] []
                                else Inl ValueError)))"

section \<open>Construction\<close>

fun flatten :: "ndarray \<Rightarrow> real list" where
  "flatten (Arr1 dt xs) = xs"
| "flatten (Arr2 dt c rows) = concat rows"

text \<open>\<open>len(arr)\<close>, which is \<open>arr.shape[0]\<close>.\<close>

fun shape0 :: "ndarray \<Rightarrow> nat" where
  "shape0 (Arr1 dt xs) = length xs"
| "shape0 (Arr2 dt c rows) = length rows"

fun dtype_of :: "ndarray \<Rightarrow> dtype" where
  "dtype_of (Arr1 dt xs) = dt"
| "dtype_of (Arr2 dt c rows) = dt"

text \<open>
  An element type and a column count with the rows: an \<open>(n,c)\<close> block as \<open>hstack\<close>
  handles it.
\<close>

type_synonym block = "dtype \<times> nat \<times> real list list"

definition as_column :: "real list \<Rightarrow> real list list" where
  "as_column xs = map (\<lambda>x. [x]) xs"

definition column :: "dtype \<Rightarrow> real list \<Rightarrow> block" where
  "column dt xs = (dt, 1, as_column xs)"

text \<open>
  The constructor gives a one-dimensional component array the shape \<open>(len(arr), 1)\<close>
  before stacking it.
\<close>

fun oriented :: "ndarray \<Rightarrow> block" where
  "oriented (Arr1 dt xs) = column dt xs"
| "oriented (Arr2 dt c rows) = (dt, c, rows)"

text \<open>
  \<open>hstack((A, B))\<close> on blocks with the same number of rows: the entries of both are
  converted to the common element type.
\<close>

fun hstack :: "block \<Rightarrow> block \<Rightarrow> block" where
  "hstack (da, ca, ra) (db, cb, rb) =
     (result_type da db, ca + cb,
      map2 (@) (map (map (cast da (result_type da db))) ra)
               (map (map (cast db (result_type da db))) rb))"

text \<open>
  The loop over the component arguments, from the one before the time vector back to
  the first: a callable is sampled at the times, an array must have as many rows as
  there are times, anything else is a \<open>TypeError\<close>.
\<close>

fun stack_args :: "real list \<Rightarrow> pyarg list \<Rightarrow> block \<Rightarrow> error + block" where
  "stack_args ts [] ARR = Inr ARR"
| "stack_args ts (FuncArg dt u # rest) ARR =
     stack_args ts rest (hstack (column dt (map u ts)) ARR)"
| "stack_args ts (ArrayArg arr # rest) ARR =
     (if shape0 arr = length ts then stack_args ts rest (hstack (oriented arr) ARR)
      else Inl ValueError)"
| "stack_args ts (ObjArg # rest) ARR = Inl TypeError"

text \<open>
  The positional arguments: several arguments with the time vector last, or one
  combined array whose last column is the time vector. Returns the times with their
  element type, the number of controls, and the rows of the control array with theirs.
\<close>

definition parse_args ::
  "pyarg list \<Rightarrow> error + (real list \<times> dtype \<times> nat \<times> real list list \<times> dtype)" where
  "parse_args args =
     (if length args > 1 then
        (case last args of
           ArrayArg t_arr \<Rightarrow>
             (let ts = flatten t_arr
              in case stack_args ts (rev (butlast args)) (column (dtype_of t_arr) ts) of
                   Inl e \<Rightarrow> Inl e
                 | Inr (dt, c, rows) \<Rightarrow>
                     (let number_controls = c - 1
                      in Inr (ts, dtype_of t_arr, number_controls,
                              map (take number_controls) rows, dt)))
         | FuncArg dt u \<Rightarrow> Inl TypeError
         | ObjArg \<Rightarrow> Inl TypeError)
      else
        (case args of
           [] \<Rightarrow> Inl IndexError
         | ArrayArg (Arr2 dt c rows) # rest \<Rightarrow>
             (if c = 0 then Inl IndexError
              else Inr (map (\<lambda>r. r ! (c - 1)) rows, dt, c - 1, map (take (c - 1)) rows, dt))
         | ArrayArg (Arr1 dt xs) # rest \<Rightarrow> Inl IndexError
         | FuncArg dt u # rest \<Rightarrow> Inl TypeError
         | ObjArg # rest \<Rightarrow> Inl TypeError))"

text \<open>
  The sanity check \<open>all(diff(self.times) > 0)\<close>. \<open>numpy.diff\<close> takes differences along
  the last axis, and \<open>self.times\<close> has just been given the shape \<open>(n,1)\<close>: every row
  \<open>[t]\<close> has the empty list of differences.
\<close>

fun diff :: "real list \<Rightarrow> real list" where
  "diff (x # y # xs) = (y - x) # diff (y # xs)"
| "diff xs = []"

definition time_ordered :: "real list \<Rightarrow> bool" where
  "time_ordered ts = list_all (list_all (\<lambda>d. d > 0)) (map diff (as_column ts))"

definition valid_inputs :: "string list" where
  "valid_inputs = [''latest'', ''nearest'', ''linear'']"

definition interpolation_warning :: string where
  "interpolation_warning = ''Interpolation type not understood, defaulting to latest''"

text \<open>
  The \<open>interpolation\<close> keyword: the stored policy and the warnings emitted.
\<close>

definition parse_interpolation :: "(string \<rightharpoonup> pyval) \<Rightarrow> string \<times> string list" where
  "parse_interpolation keyword_args =
     (case keyword_args ''interpolation'' of
        None \<Rightarrow> (''latest'', [])
      | Some (PStr s) \<Rightarrow>
          (if s \<in> set valid_inputs then (s, []) else (''latest'', [interpolation_warning]))
      | Some v \<Rightarrow> (''latest'', [interpolation_warning]))"

definition parse_verbose :: "(string \<rightharpoonup> pyval) \<Rightarrow> error + bool" where
  "parse_verbose keyword_args =
     (case keyword_args ''verbose'' of
        None \<Rightarrow> Inr False
      | Some (PBool flag) \<Rightarrow> Inr flag
      | Some v \<Rightarrow> Inl TypeError)"

text \<open>
  \<open>control.__init__(*args, **keyword_args)\<close>: the new object together with the
  warnings emitted through \<open>warn\<close> on the way.
\<close>

definition control_init ::
  "pyarg list \<Rightarrow> (string \<rightharpoonup> pyval) \<Rightarrow> error + (control \<times> string list)" where
  "control_init args keyword_args =
     (case parse_args args of
        Inl e \<Rightarrow> Inl e
      | Inr (ts, tdt, k, rows, cdt) \<Rightarrow>
          if \<not> time_ordered ts then Inl ValueError
          else
            (case parse_interpolation keyword_args of
               (policy, warnings) \<Rightarrow>
                 (case parse_verbose keyword_args of
                    Inl e \<Rightarrow> Inl e
                  | Inr flag \<Rightarrow>
                      Inr (\<lparr>times_c = ts, control = rows, number_controls = k,
                             dimension = k, interpolation = policy, verbose = flag,
                             times_dtype = tdt, control_dtype = cdt\<rparr>,
                           warnings))))"

text \<open>\<open>control.__call__(*args)\<close>: a positional argument is an integer or a float.\<close>

datatype callarg = IntArg int | FloatArg real

datatype pyresult = RVec "real list" | RNum real | RNone

fun arg_time :: "callarg \<Rightarrow> real" where
  "arg_time (IntArg i) = of_int i"
| "arg_time (FloatArg x) = x"

text \<open>
  An index into the interpolated vector: negative indices count from the end; a float
  index is truncated towards zero, as the numpy of the source's time did.
\<close>

fun arg_index :: "callarg \<Rightarrow> int" where
  "arg_index (IntArg i) = i"
| "arg_index (FloatArg x) = (if x < 0 then \<lceil>x\<rceil> else \<lfloor>x\<rfloor>)"

definition vec_get :: "real list \<Rightarrow> int \<Rightarrow> error + real" where
  "vec_get v i =
     (let n = int (length v); j = (if i < 0 then n + i else i)
      in if 0 \<le> j \<and> j < n then Inr (v ! nat j) else Inl IndexError)"

definition dunder_call :: "control \<Rightarrow> callarg list \<Rightarrow> error + pyresult" where
  "dunder_call self args =
     (if length args = 1 then
        (case interpolate self (arg_time (args ! 0)) PNone of
           Inl e \<Rightarrow> Inl e
         | Inr v \<Rightarrow> Inr (RVec v))
      else if length args = 2 then
        (case interpolate self (arg_time (args ! 1)) PNone of
           Inl e \<Rightarrow> Inl e
         | Inr v \<Rightarrow>
             (case vec_get v (arg_index (args ! 0)) of
                Inl e \<Rightarrow> Inl e
              | Inr x \<Rightarrow> Inr (RNum x)))
      else Inr RNone)"

section \<open>Copy, arc length, inverse\<close>

text \<open>
  \<open>control.copy()\<close>: a new object built by the constructor from copies of the two
  arrays, then given the policy and the verbosity of \<open>self\<close>.
\<close>

definition copy :: "control \<Rightarrow> error + control" where
  "copy self =
     (case control_init
             [ArrayArg (Arr2 (control_dtype self) (number_controls self) (control self)),
              ArrayArg (Arr2 (times_dtype self) 1 (as_column (times_c self)))] Map.empty of
        Inl e \<Rightarrow> Inl e
      | Inr (c, warnings) \<Rightarrow>
          Inr (c\<lparr>interpolation := interpolation self, verbose := verbose self\<rparr>))"

text \<open>
  Modelled from the spec: \<open>norm\<close> comes from the module \<open>quantop\<close>, which is not among
  the sources; the spec gives the Euclidean norm over the components.
\<close>

definition norm_vec :: "real list \<Rightarrow> real" where
  "norm_vec v = sqrt (sum_list (map (\<lambda>x. x * x) v))"

text \<open>The loop of \<open>arc_length\<close> over \<open>range(len(self.times) - 1)\<close>.\<close>

fun arc_length_loop :: "control \<Rightarrow> nat list \<Rightarrow> real \<Rightarrow> error + real" where
  "arc_length_loop self [] len = Inr len"
| "arc_length_loop self (timestep # rest) len =
     (case row_at (control self) timestep of
        Inl e \<Rightarrow> Inl e
      | Inr r \<Rightarrow>
          (let dt = times_c self ! (timestep + 1) - times_c self ! timestep;
               dL = norm_vec r * dt
           in arc_length_loop self rest (len + dL)))"

definition arc_length :: "control \<Rightarrow> error + real" where
  "arc_length self = arc_length_loop self [0 ..< length (times_c self) - 1] 0"

text \<open>
  \<open>control.inverse()\<close>: on a copy, the rows are flipped and negated, then the times are
  flipped and subtracted from the largest time; the difference of the float
  \<open>c.timemax()\<close> and the time array is a \<open>float64\<close> array.
\<close>

definition inverse_c :: "control \<Rightarrow> error + control" where
  "inverse_c self =
     (case copy self of
        Inl e \<Rightarrow> Inl e
      | Inr c \<Rightarrow>
          (let c1 = c\<lparr>control := map (map (negate (control_dtype c))) (rev (control c))\<rparr>
           in case timemax c1 of
                Inl e \<Rightarrow> Inl e
              | Inr tmax \<Rightarrow>
                  Inr (c1\<lparr>times_c := map (\<lambda>t. fsub tmax (to_float (times_dtype c1) t))
                                       (rev (times_c c1)),
                          times_dtype := Float64\<rparr>)))"

section \<open>The detuning error model\<close>

datatype error_parameters = ParNone | ParScalar real | ParList "real list"

text \<open>The literal \<open>0.1\<close> is the float nearest to one tenth.\<close>

definition default_parameters :: "real list" where
  "default_parameters = [fl (1 / 10)]"

text \<open>
  \<open>delta = error_parameters[0]\<close>, or the parameter itself when it is not subscriptable;
  \<open>None\<close> stands for the defaults. The parameters are Python floats.
\<close>

fun delta_of :: "error_parameters \<Rightarrow> error + real" where
  "delta_of ParNone =
     (case default_parameters of [] \<Rightarrow> Inl IndexError | d # ds \<Rightarrow> Inr d)"
| "delta_of (ParScalar d) = Inr d"
| "delta_of (ParList []) = Inl IndexError"
| "delta_of (ParList (d # ds)) = Inr d"

text \<open>
  \<open>detuning.call(ctrl, error_parameters)\<close>. \<open>arr = ctrl.control\<close> is the array of the
  caller's object, not a copy, so \<open>arr[:,2] = delta\<close> writes into it, converting \<open>delta\<close>
  to the element type of the array: the function returns its result together with the
  caller's object as it is afterwards.
\<close>

definition detuning_call ::
  "control \<Rightarrow> error_parameters \<Rightarrow> (error + (control \<times> string list)) \<times> control" where
  "detuning_call ctrl error_params =
     (case delta_of error_params of
        Inl e \<Rightarrow> (Inl e, ctrl)
      | Inr delta \<Rightarrow>
          if number_controls ctrl \<le> 2 then (Inl IndexError, ctrl)
          else
            (let ctrl' = ctrl\<lparr>control :=
                           map (\<lambda>r. r[2 := cast Float64 (control_dtype ctrl) delta])
                             (control ctrl)\<rparr>
             in (control_init
                   [ArrayArg (Arr2 (control_dtype ctrl') (number_controls ctrl') (control ctrl')),
                    ArrayArg (Arr2 (times_dtype ctrl') 1 (as_column (times_c ctrl')))]
                   Map.empty,
                 ctrl')))"

section \<open>Saving and loading\<close>













section \<open>Well-formed waveforms\<close>

text \<open>
  The invariants of the data model: at least one sample, strictly increasing times, one
  row of \<open>k\<close> components per sample, and one of the three policies stored.
\<close>

definition wf_control :: "control \<Rightarrow> bool" where
  "wf_control w \<longleftrightarrow>
     times_c w \<noteq> [] \<and> sorted_wrt (<) (times_c w) \<and>
     length (control w) = length (times_c w) \<and>
     list_all (\<lambda>r. length r = number_controls w) (control w) \<and>
     dimension w = number_controls w \<and>
     interpolation w \<in> set valid_inputs"

text \<open>Every entry is a value of the element type of its array.\<close>

definition well_typed :: "control \<Rightarrow> bool" where
  "well_typed w \<longleftrightarrow>
     list_all (holds (times_dtype w)) (times_c w) \<and>
     list_all (list_all (holds (control_dtype w))) (control w)"

text \<open>
  None of the differences that \<open>inverse\<close> stores overflows: the time span of the waveform
  is a finite \<open>float64\<close>.
\<close>

definition span_finite :: "control \<Rightarrow> bool" where
  "span_finite w \<longleftrightarrow>
     (case timemax w of
        Inl e \<Rightarrow> False
      | Inr tmax \<Rightarrow>
          list_all (\<lambda>t. \<bar>fsub tmax (to_float (times_dtype w) t)\<bar> \<le> max_float) (times_c w))"

text \<open>The shape that \<open>copy\<close> and \<open>inverse\<close> need of a waveform.\<close>

definition shaped :: "control \<Rightarrow> bool" where
  "shaped w \<longleftrightarrow>
     times_c w \<noteq> [] \<and> sorted (times_c w) \<and>
     length (control w) = length (times_c w) \<and>
     list_all (\<lambda>r. length r = number_controls w) (control w) \<and>
     dimension w = number_controls w"

text \<open>The waveform that \<open>inverse\<close> returns.\<close>

abbreviation inverted :: "control \<Rightarrow> control" where
  "inverted w \<equiv>
     w\<lparr>control :=
         map (map (\<lambda>x. negate (result_type (control_dtype w) (times_dtype w))
                         (cast (control_dtype w)
                            (result_type (control_dtype w) (times_dtype w)) x)))
           (rev (control w)),
       control_dtype := result_type (control_dtype w) (times_dtype w),
       times_c :=
         map (\<lambda>t. fsub (to_float (times_dtype w) (last (times_c w)))
                    (to_float (times_dtype w) t))
           (rev (times_c w)),
       times_dtype := Float64\<rparr>"




section \<open>Example waveforms\<close>

text \<open>
  \<open>two_level\<close> has the value vector \<open>(0,1)\<close> at time 0 and \<open>(1,0)\<close> at time 1;
  \<open>three_knots\<close> has one component and an interior sample; \<open>late_step\<close> starts at
  time 1; \<open>xyz_pulse\<close> has three components, and \<open>xyz_counts\<close> is the same waveform held
  in integer arrays; \<open>close_samples\<close> has two samples \<open>2 ^ -60\<close> apart; \<open>one_sample\<close> has
  a single sample; \<open>big_count\<close> holds the integer \<open>2 ^ 53 + 1\<close> beside float times.
\<close>

definition two_level :: control where
  "two_level = \<lparr>times_c = [0, 1], control = [[0, 1], [1, 0]], number_controls = 2,
     dimension = 2, interpolation = ''nearest'', verbose = False,
     times_dtype = Float64, control_dtype = Float64\<rparr>"

definition three_knots :: control where
  "three_knots = \<lparr>times_c = [0, 1, 2], control = [[1], [2], [4]], number_controls = 1,
     dimension = 1, interpolation = ''latest'', verbose = False,
     times_dtype = Float64, control_dtype = Float64\<rparr>"


definition xyz_pulse :: control where
  "xyz_pulse = \<lparr>times_c = [1, 2, 4], control = [[3, 4, 0], [1, 0, 0], [0, 0, 2]],
     number_controls = 3, dimension = 3, interpolation = ''linear'', verbose = True,
     times_dtype = Float64, control_dtype = Float64\<rparr>"

definition xyz_counts :: control where
  "xyz_counts = xyz_pulse\<lparr>times_dtype := Int64, control_dtype := Int64\<rparr>"

definition close_samples :: control where
  "close_samples = \<lparr>times_c = [0, 1 / 2 ^ 60, 1], control = [[1], [2], [3]],
     number_controls = 1, dimension = 1, interpolation = ''latest'', verbose = False,
     times_dtype = Float64, control_dtype = Float64\<rparr>"




section \<open>Properties of the rounding and of the operations\<close>

lemma round_even_of_int: "round_even (of_int k) = k"
  by (simp add: round_even_def)

lemma round_even_bounds: "\<lfloor>x\<rfloor> \<le> round_even x \<and> round_even x \<le> \<lfloor>x\<rfloor> + 1"
  by (simp add: round_even_def Let_def)

lemma round_even_mono:
  assumes "x \<le> y"
  shows "round_even x \<le> round_even y"
proof (cases "\<lfloor>x\<rfloor> = \<lfloor>y\<rfloor>")
  case True
  then show ?thesis using assms by (auto simp: round_even_def Let_def)
next
  case False
  then have "\<lfloor>x\<rfloor> < \<lfloor>y\<rfloor>" using floor_mono [OF assms] by simp
  then show ?thesis using round_even_bounds [of x] round_even_bounds [of y] by linarith
qed


lemma round_even_minus: "round_even (- x) = - round_even x"
proof (cases "x = of_int \<lfloor>x\<rfloor>")
  case True
  then obtain k where "x = of_int k" by metis
  then have "- x = of_int (- k)" by simp
  then show ?thesis using \<open>x = of_int k\<close> round_even_of_int by metis
next
  case False
  then have lt: "of_int \<lfloor>x\<rfloor> < x" using of_int_floor_le [of x] by linarith
  have ub: "x < of_int \<lfloor>x\<rfloor> + 1" by linarith
  have fl: "\<lfloor>- x\<rfloor> = - \<lfloor>x\<rfloor> - 1"
  proof (rule floor_unique)
    show "of_int (- \<lfloor>x\<rfloor> - 1) \<le> - x" using ub by linarith
    show "- x < of_int (- \<lfloor>x\<rfloor> - 1) + 1" using lt by simp
  qed
  show ?thesis
    unfolding round_even_def Let_def fl using lt by auto
qed


lemma round_to_mono:
  assumes "0 < b" and "x \<le> y"
  shows "round_to b e x \<le> round_to b e y"
proof -
  have q: "0 < b powr of_int e" using assms(1) by simp
  have "x / b powr of_int e \<le> y / b powr of_int e"
    using assms(2) q by (simp add: divide_right_mono)
  then have "round_even (x / b powr of_int e) \<le> round_even (y / b powr of_int e)"
    by (rule round_even_mono)
  then show ?thesis unfolding round_to_def using q by (simp add: mult_right_mono)
qed

lemma round_to_exact:
  assumes "0 < b" and "x = of_int k * b powr of_int e"
  shows "round_to b e x = x"
proof -
  have "x / b powr of_int e = of_int k" using assms by simp
  then show ?thesis unfolding round_to_def using assms(2) by (simp add: round_even_of_int)
qed

lemma round_to_minus: "round_to b e (- x) = - round_to b e x"
  by (simp add: round_to_def round_even_minus)

lemma floor_log_bounds:
  assumes "1 < b" and "0 < x"
  shows "b powr of_int \<lfloor>log b x\<rfloor> \<le> x" and "x < b powr of_int (\<lfloor>log b x\<rfloor> + 1)"
proof -
  show "b powr of_int \<lfloor>log b x\<rfloor> \<le> x"
    using assms le_log_iff [of b x "of_int \<lfloor>log b x\<rfloor>"] of_int_floor_le [of "log b x"]
    by blast
  have "log b x < of_int (\<lfloor>log b x\<rfloor> + 1)" by simp
  then show "x < b powr of_int (\<lfloor>log b x\<rfloor> + 1)"
    using assms by (simp only: log_less_iff)
qed

lemma floor_log_unique:
  assumes "1 < b" and "b powr of_int e \<le> x" and "x < b powr of_int (e + 1)"
  shows "\<lfloor>log b x\<rfloor> = e"
proof (rule floor_unique)
  have pos: "0 < x" using assms(2) powr_gt_zero [of b "of_int e"] assms(1) by linarith
  show "of_int e \<le> log b x" using assms(1,2) pos by (simp add: le_log_iff)
  show "log b x < of_int e + 1" using assms(1,3) pos by (simp add: log_less_iff add.commute)
qed

lemma fexp_minus: "fexp (- x) = fexp x"
  by (simp add: fexp_def)

lemma fexp_ge: "- 1022 \<le> fexp x"
  by (simp add: fexp_def)

lemma fexp_upper:
  assumes "x \<noteq> 0"
  shows "\<bar>x\<bar> < 2 powr of_int (fexp x + 1)"
proof -
  have "\<bar>x\<bar> < 2 powr of_int (\<lfloor>log 2 \<bar>x\<bar>\<rfloor> + 1)"
    using assms by (intro floor_log_bounds) auto
  also have "\<dots> \<le> 2 powr of_int (fexp x + 1)"
    by (intro powr_mono) (auto simp: fexp_def)
  finally show ?thesis .
qed

lemma fexp_lower:
  assumes "x \<noteq> 0" and "fexp x \<noteq> - 1022"
  shows "2 powr of_int (fexp x) \<le> \<bar>x\<bar>"
proof -
  have "fexp x = \<lfloor>log 2 \<bar>x\<bar>\<rfloor>" using assms(2) by (auto simp: fexp_def max_def split: if_splits)
  then show ?thesis using floor_log_bounds(1) [of 2 "\<bar>x\<bar>"] assms(1) by simp
qed

lemma fexp_mono:
  assumes "0 < x" and "x \<le> y"
  shows "fexp x \<le> fexp y"
proof -
  have "log 2 \<bar>x\<bar> \<le> log 2 \<bar>y\<bar>" using assms by simp
  then have "\<lfloor>log 2 \<bar>x\<bar>\<rfloor> \<le> \<lfloor>log 2 \<bar>y\<bar>\<rfloor>" by (rule floor_mono)
  then show ?thesis by (simp add: fexp_def)
qed

lemma fexp_eq:
  assumes "2 powr of_int e \<le> \<bar>x\<bar>" and "\<bar>x\<bar> < 2 powr of_int (e + 1)"
  shows "fexp x = max e (- 1022)"
  using floor_log_unique [of 2 e "\<bar>x\<bar>"] assms by (simp add: fexp_def)

lemma fl_eval:
  assumes "2 powr of_int e \<le> \<bar>x\<bar>" and "\<bar>x\<bar> < 2 powr of_int (e + 1)" and "- 1022 \<le> e"
  shows "fl x = round_to 2 (e - 52) x"
  using fexp_eq [OF assms(1,2)] assms(3) by (simp add: fl_def max_def)

lemma fl_zero: "fl 0 = 0"
  by (simp add: fl_def round_to_def round_even_def)

lemma fl_minus: "fl (- x) = - fl x"
  by (simp add: fl_def fexp_minus round_to_minus)

lemma fl_nonneg:
  assumes "0 \<le> x"
  shows "0 \<le> fl x"
proof -
  have "round_to 2 (fexp x - 52) 0 \<le> round_to 2 (fexp x - 52) x"
    using assms by (intro round_to_mono) auto
  then show ?thesis by (simp add: fl_def round_to_def round_even_def)
qed

lemma pow2_grid: "of_int (2 ^ n) * 2 powr of_int (e - int n) = (2::real) powr of_int e"
proof -
  have "(2::real) ^ n = 2 powr of_int (int n)" by (simp add: powr_realpow)
  then have "of_int (2 ^ n) * 2 powr of_int (e - int n)
        = (2::real) powr of_int (int n) * 2 powr of_int (e - int n)" by simp
  also have "\<dots> = 2 powr (of_int (int n) + of_int (e - int n))"
    by (simp only: powr_add)
  also have "\<dots> = 2 powr of_int e" by simp
  finally show ?thesis .
qed

lemma fl_mono_pos:
  assumes "0 < x" and "x \<le> y"
  shows "fl x \<le> fl y"
proof (cases "fexp x = fexp y")
  case True
  then show ?thesis using assms(2) by (simp add: fl_def round_to_mono)
next
  case False
  let ?ex = "fexp x" and ?ey = "fexp y"
  have lt: "?ex < ?ey" using fexp_mono [OF assms] False by simp
  have ypos: "0 < y" using assms by simp
  have "x < 2 powr of_int (?ex + 1)" using fexp_upper [of x] assms(1) by simp
  then have "round_to 2 (?ex - 52) x \<le> round_to 2 (?ex - 52) (2 powr of_int (?ex + 1))"
    by (intro round_to_mono) auto
  also have "round_to 2 (?ex - 52) (2 powr of_int (?ex + 1)) = 2 powr of_int (?ex + 1)"
    using pow2_grid [of 53 "?ex + 1"] by (intro round_to_exact [where k = "2 ^ 53"]) auto
  finally have a: "fl x \<le> 2 powr of_int (?ex + 1)" by (simp add: fl_def)
  have "?ey \<noteq> - 1022" using lt fexp_ge [of x] by linarith
  then have "2 powr of_int ?ey \<le> y" using fexp_lower [of y] ypos by simp
  then have "round_to 2 (?ey - 52) (2 powr of_int ?ey) \<le> round_to 2 (?ey - 52) y"
    by (intro round_to_mono) auto
  moreover have "round_to 2 (?ey - 52) (2 powr of_int ?ey) = 2 powr of_int ?ey"
    using pow2_grid [of 52 "?ey"] by (intro round_to_exact [where k = "2 ^ 52"]) auto
  ultimately have b: "2 powr of_int ?ey \<le> fl y" by (simp add: fl_def)
  have "(2::real) powr of_int (?ex + 1) \<le> 2 powr of_int ?ey"
    using lt by (intro powr_mono) auto
  then show ?thesis using a b by linarith
qed

lemma fl_mono:
  assumes "x \<le> y"
  shows "fl x \<le> fl y"
proof -
  consider "0 < x" | "x \<le> 0" "0 \<le> y" | "y < 0" by linarith
  then show ?thesis
  proof cases
    case 1
    then show ?thesis using assms by (rule fl_mono_pos)
  next
    case 2
    then have "fl x \<le> 0" using fl_nonneg [of "- x"] by (simp add: fl_minus)
    then show ?thesis using fl_nonneg [OF 2(2)] by linarith
  next
    case 3
    then have "fl (- y) \<le> fl (- x)" using assms by (intro fl_mono_pos) auto
    then show ?thesis by (simp add: fl_minus)
  qed
qed

lemma fl_representable:
  assumes "\<bar>m\<bar> < 2 ^ 53" and "- 1074 \<le> e"
  shows "fl (of_int m * 2 powr of_int e) = of_int m * 2 powr of_int e"
proof (cases "m = 0")
  case True
  then show ?thesis by (simp add: fl_zero)
next
  case False
  let ?x = "of_int m * 2 powr of_int e :: real"
  have x0: "?x \<noteq> 0" using False by simp
  have absx: "\<bar>?x\<bar> = of_int \<bar>m\<bar> * 2 powr of_int e" by (simp add: abs_mult)
  have "of_int \<bar>m\<bar> < (2::real) ^ 53" using assms(1) by (metis of_int_less_iff of_int_numeral of_int_power)
  then have "\<bar>?x\<bar> < 2 ^ 53 * 2 powr of_int e" unfolding absx by (intro mult_strict_right_mono) auto
  also have "\<dots> = 2 powr of_int (e + 53)" using pow2_grid [of 53 "e + 53"] by simp
  finally have up: "\<bar>?x\<bar> < 2 powr of_int (e + 53)" .
  have "0 < \<bar>?x\<bar>" using x0 by simp
  then have "log 2 \<bar>?x\<bar> < of_int (e + 53)" using up by (simp only: log_less_iff)
  then have "\<lfloor>log 2 \<bar>?x\<bar>\<rfloor> < e + 53" by (simp add: floor_less_iff)
  then have g: "fexp ?x - 52 \<le> e" using assms(2) by (simp add: fexp_def)
  define g where "g = fexp ?x - 52"
  define n where "n = nat (e - g)"
  have n: "e - int n = g" using g by (simp add: n_def g_def)
  have eq: "(2::real) powr of_int e = of_int (2 ^ n) * 2 powr of_int g"
    using pow2_grid [of n e] unfolding n by simp
  have "?x = of_int m * (of_int (2 ^ n) * 2 powr of_int g)"
    by (simp only: eq)
  also have "\<dots> = of_int (m * 2 ^ n) * 2 powr of_int g"
    by (simp only: of_int_mult mult.assoc)
  finally have rep: "?x = of_int (m * 2 ^ n) * 2 powr of_int g" .
  have "round_to 2 g ?x = ?x" by (rule round_to_exact [OF _ rep]) simp
  then show ?thesis unfolding fl_def g_def .
qed

lemma fl_of_int: "\<bar>k\<bar> < 2 ^ 53 \<Longrightarrow> fl (of_int k) = of_int k"
  using fl_representable [of k 0] by simp

lemma fl_numeral: "numeral n < (2::int) ^ 53 \<Longrightarrow> fl (numeral n) = numeral n"
  using fl_of_int [of "numeral n"] by simp

lemma fl_one: "fl 1 = 1"
  using fl_of_int [of 1] by simp

lemma fl_pow2_inverse: "n \<le> 1074 \<Longrightarrow> fl (1 / 2 ^ n) = 1 / 2 ^ n"
  using fl_representable [of 1 "- int n"] by (simp add: powr_minus powr_realpow divide_inverse)

lemma fl_below_one: "fl (1 - 1 / 2 ^ 60) = 1"
proof -
  have "fl (1 - 1 / 2 ^ 60) = round_to 2 (- 1 - 52) (1 - 1 / 2 ^ 60)"
    by (rule fl_eval) (simp_all add: powr_minus)
  also have "\<dots> = 1"
    by (simp add: round_to_def round_even_def powr_minus)
  finally show ?thesis .
qed





lemma round_even_abs_le:
  assumes "\<bar>a\<bar> \<le> of_int n"
  shows "\<bar>round_even a\<bar> \<le> n"
proof -
  have "round_even a \<le> round_even (of_int n)" using assms by (intro round_even_mono) linarith
  moreover have "round_even (of_int (- n)) \<le> round_even a"
  proof (rule round_even_mono)
    show "of_int (- n) \<le> a" using assms by (simp add: abs_le_iff)
  qed
  ultimately show ?thesis
    using round_even_of_int [of n] round_even_of_int [of "- n"] by (simp add: abs_le_iff)
qed

lemma fl_idem: "fl (fl x) = fl x"
proof (cases "x = 0")
  case True
  then show ?thesis by (simp add: fl_zero)
next
  case False
  define g where "g = fexp x - 52"
  define q where "q = (2::real) powr of_int g"
  define k where "k = round_even (x / q)"
  have q: "0 < q" by (simp add: q_def)
  have flx: "fl x = of_int k * q" by (simp add: fl_def round_to_def k_def q_def g_def)
  have "\<bar>x\<bar> < 2 powr of_int (fexp x + 1)" using fexp_upper [OF False] .
  also have "\<dots> = of_int (2 ^ 53) * q"
    using pow2_grid [of 53 "fexp x + 1"] by (simp add: q_def g_def)
  finally have "\<bar>x\<bar> / q < of_int (2 ^ 53)" using q by (simp add: pos_divide_less_eq)
  then have "\<bar>x / q\<bar> \<le> of_int (2 ^ 53)" using q by (simp only: abs_divide abs_of_pos)
  then have kb: "\<bar>k\<bar> \<le> 2 ^ 53" unfolding k_def by (rule round_even_abs_le)
  have gge: "- 1074 \<le> g" using fexp_ge [of x] by (simp add: g_def)
  show ?thesis
  proof (cases "\<bar>k\<bar> < 2 ^ 53")
    case True
    then show ?thesis unfolding flx q_def using gge by (rule fl_representable)
  next
    case False
    then have "k = 2 ^ 53 \<or> k = - (2 ^ 53)" using kb by linarith
    then have "fl x = of_int 1 * 2 powr of_int (fexp x + 1)
               \<or> fl x = of_int (- 1) * 2 powr of_int (fexp x + 1)"
      using pow2_grid [of 53 "fexp x + 1"] unfolding flx q_def g_def by auto
    moreover have "fl (of_int 1 * 2 powr of_int (fexp x + 1)) = of_int 1 * 2 powr of_int (fexp x + 1)"
      using fexp_ge [of x] by (intro fl_representable) auto
    moreover have "fl (of_int (- 1) * 2 powr of_int (fexp x + 1))
                   = of_int (- 1) * 2 powr of_int (fexp x + 1)"
      using fexp_ge [of x] by (intro fl_representable) auto
    ultimately show ?thesis by metis
  qed
qed




lemma cast_cast_float: "to_float (result_type d d') (cast d (result_type d d') x) = to_float d x"
  by (cases d; cases d') (simp_all add: to_float_def result_type_def fl_idem)

lemma fl_tenth_bounds: "1 / 16 \<le> fl (1 / 10)" "fl (1 / 10) \<le> 1 / 2"
proof -
  have "fl (1 / 2 ^ 4) \<le> fl (1 / 10)" by (rule fl_mono) simp
  then show "1 / 16 \<le> fl (1 / 10)" using fl_pow2_inverse [of 4] by simp
  have "fl (1 / 10) \<le> fl (1 / 2 ^ 1)" by (rule fl_mono) simp
  then show "fl (1 / 10) \<le> 1 / 2" using fl_pow2_inverse [of 1] by simp
qed

lemma trunc_tenth: "cast Float64 Int64 (fl (1 / 10)) = 0"
proof -
  have "\<lfloor>fl (1 / 10)\<rfloor> = 0" using fl_tenth_bounds by (intro floor_unique) auto
  then show ?thesis using fl_tenth_bounds by (simp add: trunc_def)
qed

lemma concat_as_column: "concat (as_column xs) = xs"
  by (induction xs) (auto simp: as_column_def)

lemma map_as_column: "map (map f) (as_column xs) = as_column (map f xs)"
  by (simp add: as_column_def comp_def)

lemma length_as_column: "length (as_column xs) = length xs"
  by (simp add: as_column_def)

lemma take_map2_append:
  "length rows = length ts \<Longrightarrow> list_all (\<lambda>r. length r = k) rows \<Longrightarrow>
   map (take k) (map2 (@) rows (as_column ts)) = rows"
proof (induction rows arbitrary: ts)
  case Nil
  then show ?case by simp
next
  case (Cons r rows)
  then obtain t ts' where "ts = t # ts'" by (cases ts) auto
  with Cons show ?case by (simp add: as_column_def)
qed

lemma time_ordered_always: "time_ordered ts"
  by (simp add: time_ordered_def as_column_def list_all_iff)

lemma parse_args_pair:
  assumes "length rows = length ts" and "list_all (\<lambda>r. length r = k) rows"
  shows "parse_args [ArrayArg (Arr2 cdt k rows), ArrayArg (Arr2 tdt 1 (as_column ts))]
         = Inr (ts, tdt, k, map (map (cast cdt (result_type cdt tdt))) rows,
                result_type cdt tdt)"
proof -
  let ?rt = "result_type cdt tdt"
  let ?rows = "map (map (cast cdt ?rt)) rows"
  have len: "length ?rows = length (map (cast tdt ?rt) ts)" using assms(1) by simp
  have shape: "list_all (\<lambda>r. length r = k) ?rows" using assms(2) by (simp add: list_all_iff)
  have "map (take k) (map2 (@) ?rows (as_column (map (cast tdt ?rt) ts))) = ?rows"
    using len shape by (rule take_map2_append)
  then show ?thesis
    using assms(1)
    by (simp add: parse_args_def column_def concat_as_column length_as_column map_as_column)
qed

lemma control_init_pair:
  assumes "length rows = length ts" and "list_all (\<lambda>r. length r = k) rows"
  shows "control_init [ArrayArg (Arr2 cdt k rows), ArrayArg (Arr2 tdt 1 (as_column ts))] Map.empty
         = Inr (\<lparr>times_c = ts, control = map (map (cast cdt (result_type cdt tdt))) rows,
                  number_controls = k, dimension = k,
                  interpolation = ''latest'', verbose = False,
                  times_dtype = tdt, control_dtype = result_type cdt tdt\<rparr>, [])"
  using parse_args_pair [OF assms, of cdt tdt]
  by (simp add: control_init_def time_ordered_always
      parse_interpolation_def parse_verbose_def)

lemma wf_shaped: "wf_control w \<Longrightarrow> shaped w"
  by (auto simp: wf_control_def shaped_def strict_sorted_iff)

lemma copy_shaped:
  assumes "shaped w"
  shows "copy w =
         Inr (w\<lparr>control := map (map (cast (control_dtype w)
                                       (result_type (control_dtype w) (times_dtype w))))
                               (control w),
                control_dtype := result_type (control_dtype w) (times_dtype w)\<rparr>)"
proof -
  have "length (control w) = length (times_c w)"
    and "list_all (\<lambda>r. length r = number_controls w) (control w)"
    and "dimension w = number_controls w"
    using assms by (simp_all add: shaped_def)
  then show ?thesis
    using control_init_pair [of "control w" "times_c w" "number_controls w"
        "control_dtype w" "times_dtype w"]
    by (simp add: copy_def)
qed

lemma fold_max_sorted: "sorted (x # xs) \<Longrightarrow> fold max xs (x::real) = last (x # xs)"
proof (induction xs arbitrary: x)
  case Nil
  then show ?case by simp
next
  case (Cons y ys)
  then have "max y x = y" by simp
  moreover have "sorted (y # ys)" using Cons.prems by simp
  ultimately show ?case using Cons.IH [of y] by simp
qed

lemma fold_min_sorted: "sorted (x # xs) \<Longrightarrow> fold min xs (x::real) = x"
proof (induction xs)
  case Nil
  then show ?case by simp
next
  case (Cons y ys)
  then have "min y x = x" by simp
  moreover have "sorted (x # ys)" using Cons.prems by auto
  ultimately show ?case using Cons.IH by simp
qed

lemma py_max_sorted: "ts \<noteq> [] \<Longrightarrow> sorted ts \<Longrightarrow> py_max ts = Inr (last ts)"
  by (cases ts) (simp_all add: fold_max_sorted del: sorted_wrt.simps)

lemma py_min_sorted: "ts \<noteq> [] \<Longrightarrow> sorted ts \<Longrightarrow> py_min ts = Inr (hd ts)"
  by (cases ts) (simp_all add: fold_min_sorted del: sorted_wrt.simps)

lemma timemax_shaped: "shaped w \<Longrightarrow> timemax w = Inr (to_float (times_dtype w) (last (times_c w)))"
  by (simp add: timemax_def shaped_def py_max_sorted)


lemma inverse_c_shaped:
  assumes "shaped w"
  shows "inverse_c w = Inr (inverted w)"
  using assms
  by (simp add: inverse_c_def copy_shaped timemax_def py_max_sorted shaped_def
      rev_map comp_def)

lemma to_float_mono: "x \<le> y \<Longrightarrow> to_float d x \<le> to_float d y"
  by (cases d) (simp_all add: to_float_def fl_mono)

lemma fsub_antimono: "x \<le> y \<Longrightarrow> fsub T y \<le> fsub T x"
  by (simp add: fsub_def fl_mono)

lemma sorted_flip:
  assumes "sorted ts"
  shows "sorted (map (\<lambda>t. fsub T (to_float d t)) (rev ts))"
proof -
  have "sorted_wrt (\<lambda>x y. y \<le> x) (rev ts)" using assms by (simp add: sorted_wrt_rev)
  then have "sorted_wrt (\<lambda>x y. fsub T (to_float d x) \<le> fsub T (to_float d y)) (rev ts)"
    by (rule sorted_wrt_mono_rel [rotated]) (simp add: fsub_antimono to_float_mono)
  then show ?thesis by (simp add: sorted_wrt_map)
qed

lemma shaped_inverted:
  assumes "shaped w"
  shows "shaped (inverted w)"
  using assms by (simp add: shaped_def sorted_flip list_all_iff)

lemma rev_nth_flip: "i < length xs \<Longrightarrow> rev xs ! (length xs - Suc i) = xs ! i"
  by (simp add: rev_nth Suc_diff_Suc)




lemma max_float_large: "2 ^ 53 \<le> max_float"
proof -
  have "(2::real) ^ 53 * 1 \<le> 2 ^ 53 * 2 ^ 970" by (intro mult_left_mono) simp_all
  also have "\<dots> \<le> (2 ^ 53 - 1) * 2 ^ 971"
  proof -
    have "(2::real) ^ 53 \<le> (2 ^ 53 - 1) * 2" by simp
    then have "(2::real) ^ 53 * 2 ^ 970 \<le> ((2 ^ 53 - 1) * 2) * 2 ^ 970"
      by (intro mult_right_mono) simp_all
    also have "\<dots> = (2 ^ 53 - 1) * 2 ^ 971" by (simp only: mult.assoc power_Suc [symmetric]) simp
    finally show ?thesis .
  qed
  finally show ?thesis by (simp add: max_float_def)
qed

lemma max_float_ge: "x \<le> 9007199254740992 \<Longrightarrow> x \<le> max_float"
  using max_float_large by simp

lemma max_float_scaled: "1 \<le> max_float * 1152921504606846976"
  using max_float_large by simp

lemmas interpolate_unfold =
  interpolate_def timemin_def timemax_def row_at_def elem_at_def interp_def to_float_def

lemmas construct_unfold =
  control_init_def parse_args_def column_def as_column_def time_ordered_def
  parse_interpolation_def parse_verbose_def valid_inputs_def result_type_def Let_def

lemmas float_unfold = fsub_def to_float_def fl_zero fl_one fl_numeral fl_minus

lemmas inverse_unfold = inverse_c_def copy_def timemax_def construct_unfold float_unfold

lemma wf_two_level: "wf_control two_level"
  by (simp add: wf_control_def two_level_def valid_inputs_def)

lemma wf_three_knots: "wf_control three_knots"
  by (simp add: wf_control_def three_knots_def valid_inputs_def)


lemma wf_xyz_pulse: "wf_control xyz_pulse"
  by (simp add: wf_control_def xyz_pulse_def valid_inputs_def)

lemma wf_xyz_counts: "wf_control xyz_counts"
  by (simp add: wf_control_def xyz_counts_def xyz_pulse_def valid_inputs_def)

lemma wf_close_samples: "wf_control close_samples"
  by (simp add: wf_control_def close_samples_def valid_inputs_def)


lemma typed_close_samples: "well_typed close_samples"
  using fl_pow2_inverse [of 60]
  by (simp add: well_typed_def close_samples_def fl_zero fl_one fl_numeral max_float_ge max_float_scaled)

lemma fsub_close: "fsub 1 (1 / 2 ^ 60) = 1"
  using fl_below_one by (simp add: fsub_def)

lemma span_xyz_pulse: "span_finite xyz_pulse"
  by (simp add: span_finite_def xyz_pulse_def timemax_def to_float_def fsub_def
      fl_zero fl_numeral max_float_ge max_float_scaled)

lemma twice_inverted_rounding:
  "inverse_c (close_samples\<lparr>times_c := [0, 1, 1], control := [[- 3], [- 2], [- 1]]\<rparr>)
     = Inr (close_samples\<lparr>times_c := [0, 0, 1]\<rparr>)"
  by (simp add: close_samples_def inverse_c_def copy_def timemax_def construct_unfold
      to_float_def fsub_def fl_zero fl_one)

lemma two_level_nearest_halves:
  "0 < t \<Longrightarrow> t \<le> 1 / 2 \<Longrightarrow> interpolate two_level t (PStr ''nearest'') = Inr [0, 1]"
  "1 / 2 < t \<Longrightarrow> t < 1 \<Longrightarrow> interpolate two_level t (PStr ''nearest'') = Inr [1, 0]"
  by (simp_all add: two_level_def interpolate_unfold)

lemma arc_length_inverted_rounding:
  "arc_length (close_samples\<lparr>times_c := [0, 1, 1], control := [[- 3], [- 2], [- 1]]\<rparr>) = Inr 3 \<and>
   (\<Sum>i<length (times_c close_samples) - 1.
       norm_vec (control close_samples ! (i + 1))
         * (times_c close_samples ! (i + 1) - times_c close_samples ! i)) = 3 - 1 / 2 ^ 60"
  by (simp add: close_samples_def arc_length_def row_at_def norm_vec_def
      eval_nat_numeral sum.lessThan_Suc)

lemma fold_max_in: "fold max xs (x::real) \<in> set (x # xs)"
proof (induction xs arbitrary: x)
  case Nil
  then show ?case by simp
next
  case (Cons y ys)
  have "max y x = y \<or> max y x = x" by (simp add: max_def)
  then show ?case using Cons [of "max y x"] by auto
qed

lemma fold_min_in: "fold min xs (x::real) \<in> set (x # xs)"
proof (induction xs arbitrary: x)
  case Nil
  then show ?case by simp
next
  case (Cons y ys)
  have "min y x = y \<or> min y x = x" by (simp add: min_def)
  then show ?case using Cons [of "min y x"] by auto
qed

lemma py_max_in: "py_max xs = Inr m \<Longrightarrow> m \<in> set xs"
  using fold_max_in by (cases xs) auto

lemma py_min_in: "py_min xs = Inr m \<Longrightarrow> m \<in> set xs"
  using fold_min_in by (cases xs) auto

lemma py_max_error: "py_max xs = Inl e \<Longrightarrow> e = ValueError \<and> xs = []"
  by (cases xs) auto

lemma py_min_error: "py_min xs = Inl e \<Longrightarrow> e = ValueError \<and> xs = []"
  by (cases xs) auto

lemma index_from_error: "index_from ts x k = Inl e \<Longrightarrow> e = ValueError"
  by (induction ts arbitrary: k) (auto split: if_splits)

lemma index_from_found:
  "x \<in> set ts \<Longrightarrow> \<exists>i. index_from ts x k = Inr i \<and> k \<le> i \<and> i < k + length ts"
proof (induction ts arbitrary: k)
  case Nil
  then show ?case by simp
next
  case (Cons t ts)
  show ?case
  proof (cases "t = x")
    case True
    then show ?thesis by simp
  next
    case False
    then have "x \<in> set ts" using Cons.prems by simp
    then obtain i where "index_from ts x (Suc k) = Inr i" "Suc k \<le> i" "i < Suc k + length ts"
      using Cons.IH by blast
    then show ?thesis using False by simp
  qed
qed

lemma tolist_index_error: "tolist_index ts x = Inl e \<Longrightarrow> e = ValueError"
  by (cases x) (auto dest: index_from_error)

lemma interpolate_unrecognized:
  assumes "s \<notin> set valid_inputs"
  shows "interpolate w time (PStr s) = Inl ValueError"
proof -
  have names: "s \<noteq> ''latest''" "s \<noteq> ''nearest''" "s \<noteq> ''linear''"
    using assms by (auto simp: valid_inputs_def)
  show ?thesis
    unfolding interpolate_def Let_def timemin_def timemax_def
    using names
    by (auto split: sum.splits dest: py_max_error py_min_error index_from_error)
qed

lemma sorted_hd_le: "sorted_wrt (<) ts \<Longrightarrow> t \<in> set ts \<Longrightarrow> hd ts \<le> (t::real)"
  by (cases ts) auto

lemma sorted_le_last: "sorted_wrt (<) ts \<Longrightarrow> t \<in> set ts \<Longrightarrow> (t::real) \<le> last ts"
proof (induction ts)
  case Nil
  then show ?case by simp
next
  case (Cons x xs)
  show ?case
  proof (cases "xs = []")
    case True
    then show ?thesis using Cons.prems by simp
  next
    case False
    then have "last xs \<in> set xs" by simp
    then have "x < last xs" using Cons.prems(1) by simp
    moreover have "t \<le> last xs" if "t \<in> set xs"
      using Cons.IH that Cons.prems(1) by simp
    ultimately show ?thesis using Cons.prems(2) False by auto
  qed
qed

lemma wf_bounds:
  assumes "wf_control w" and "times_dtype w = Float64"
  shows "timemin w = Inr (hd (times_c w))" and "timemax w = Inr (last (times_c w))"
    and "hd (times_c w) \<in> set (times_c w)" and "last (times_c w) \<in> set (times_c w)"
  using assms wf_shaped [OF assms(1)]
  by (simp_all add: wf_control_def shaped_def timemin_def timemax_def py_min_sorted
      py_max_sorted to_float_def)

lemma interpolate_at_timemin:
  assumes "wf_control w" and "times_dtype w = Float64" and "timemin w = Inr a"
  shows "interpolate w a p = Inl ValueError"
proof -
  note wb = wf_bounds [OF assms(1,2)]
  have a: "a = hd (times_c w)" using wb(1) assms(3) by simp
  have srt: "sorted_wrt (<) (times_c w)" using assms(1) by (simp add: wf_control_def)
  have "\<forall>t\<in>set (times_c w). \<not> t - a < 0"
    using sorted_hd_le [OF srt] a by fastforce
  then have lows: "filter (\<lambda>t. t - a < 0) (times_c w) = []"
    by (simp add: filter_empty_conv)
  have le: "a \<le> last (times_c w)"
    using sorted_le_last [OF srt wb(3)] a by simp
  show ?thesis
    unfolding interpolate_def Let_def wb(1,2) lows
    using a le by simp
qed

lemma interpolate_at_timemax:
  assumes "wf_control w" and "times_dtype w = Float64" and "timemax w = Inr b"
  shows "interpolate w b p = Inl ValueError"
proof -
  note wb = wf_bounds [OF assms(1,2)]
  have b: "b = last (times_c w)" using wb(2) assms(3) by simp
  have srt: "sorted_wrt (<) (times_c w)" using assms(1) by (simp add: wf_control_def)
  have "\<forall>t\<in>set (times_c w). \<not> t - b > 0"
    using sorted_le_last [OF srt] b by fastforce
  then have highs: "filter (\<lambda>t. t - b > 0) (times_c w) = []"
    by (simp add: filter_empty_conv)
  have le: "hd (times_c w) \<le> b"
    using sorted_hd_le [OF srt wb(4)] b by simp
  show ?thesis
    unfolding interpolate_def Let_def wb(1,2) highs
    using b le by (auto split: sum.splits dest: index_from_error)
qed

lemma linear_loop_total:
  assumes "il < length (control w)" and "ih < length (control w)"
    and "\<forall>j\<in>set js. j < length (control w ! il) \<and> j < length (control w ! ih)"
  shows "\<exists>v. linear_loop w t lo hi il ih js acc = Inr v \<and> length v = length acc + length js"
  using assms(3)
proof (induction js arbitrary: acc)
  case Nil
  then show ?case by simp
next
  case (Cons j js)
  let ?acc = "acc @ [interp t (scalar_val lo, scalar_val hi)
                       (control w ! il ! j, control w ! ih ! j)]"
  have "\<forall>j\<in>set js. j < length (control w ! il) \<and> j < length (control w ! ih)"
    using Cons.prems by simp
  then obtain v where "linear_loop w t lo hi il ih js ?acc = Inr v"
    and "length v = length ?acc + length js"
    using Cons.IH [of ?acc] by blast
  then show ?case using assms(1,2) Cons.prems by (simp add: elem_at_def)
qed

lemma interpolate_interior:
  assumes wf: "wf_control w" and fl64: "times_dtype w = Float64"
    and tmin: "timemin w = Inr a" and tmax: "timemax w = Inr b"
    and lo_t: "a < t" and t_hi: "t < b"
    and pol: "p = PNone \<or> (\<exists>s \<in> set valid_inputs. p = PStr s)"
  shows "\<exists>v. interpolate w t p = Inr v \<and> length v = number_controls w"
proof -
  let ?ts = "times_c w"
  note wb = wf_bounds [OF wf fl64]
  have a: "a = hd ?ts" using wb(1) tmin by simp
  have b: "b = last ?ts" using wb(2) tmax by simp
  have len: "length (control w) = length ?ts"
    and shape: "list_all (\<lambda>r. length r = number_controls w) (control w)"
    and stored: "interpolation w \<in> set valid_inputs"
    using wf by (simp_all add: wf_control_def)
  have "filter (\<lambda>x. x - t < 0) ?ts \<noteq> []"
    using wb(3) a lo_t by (auto simp: filter_empty_conv)
  then obtain lo where lo: "py_max (filter (\<lambda>x. x - t < 0) ?ts) = Inr lo"
    by (cases "filter (\<lambda>x. x - t < 0) ?ts") simp_all
  have "filter (\<lambda>x. x - t > 0) ?ts \<noteq> []"
    using wb(4) b t_hi by (auto simp: filter_empty_conv)
  then obtain hi where hi: "py_min (filter (\<lambda>x. x - t > 0) ?ts) = Inr hi"
    by (cases "filter (\<lambda>x. x - t > 0) ?ts") simp_all
  have "lo \<in> set ?ts" using py_max_in [OF lo] by simp
  then obtain il where il: "index_from ?ts lo 0 = Inr il" "il < length ?ts"
    using index_from_found [of lo ?ts 0] by auto
  have "hi \<in> set ?ts" using py_min_in [OF hi] by simp
  then obtain ih where ih: "index_from ?ts hi 0 = Inr ih" "ih < length ?ts"
    using index_from_found [of hi ?ts 0] by auto
  have rl: "length (control w ! il) = number_controls w"
    and rh: "length (control w ! ih) = number_controls w"
    using shape il(2) ih(2) len by (simp_all add: list_all_length)
  obtain v where v: "linear_loop w t (NpFloat lo) (NpFloat hi) il ih
                       [0 ..< number_controls w] [] = Inr v"
      "length v = number_controls w"
    using linear_loop_total [of il w ih "[0 ..< number_controls w]" t "NpFloat lo" "NpFloat hi" "[]"]
      il(2) ih(2) len rl rh by auto
  have name: "(if p = PNone then PStr (interpolation w) else p) \<in> PStr ` set valid_inputs"
    using pol stored by auto
  then have cases: "(if p = PNone then PStr (interpolation w) else p) = PStr ''latest'' \<or>
      (if p = PNone then PStr (interpolation w) else p) = PStr ''nearest'' \<or>
      (if p = PNone then PStr (interpolation w) else p) = PStr ''linear''"
    by (auto simp: valid_inputs_def)
  have rng: "\<not> (t < a \<or> t > b)" using lo_t t_hi by simp
  show ?thesis
    unfolding interpolate_def Let_def tmin tmax lo hi
    using cases rng il ih v len rl rh
    by (auto simp: row_at_def)
qed

lemma delta_of_error: "delta_of p = Inl e \<Longrightarrow> e = IndexError"
  by (cases p rule: delta_of.cases) (auto simp: default_parameters_def)


lemma length_map2_append:
  "length rows = length ts \<Longrightarrow> length (map2 (@) rows (as_column ts)) = length ts"
  by (simp add: as_column_def)

lemma shape_map2_append:
  "length rows = length ts \<Longrightarrow> list_all (\<lambda>r. length r = k) rows \<Longrightarrow>
   list_all (\<lambda>r. length r = Suc k) (map2 (@) rows (as_column ts))"
proof (induction rows arbitrary: ts)
  case Nil
  then show ?case by simp
next
  case (Cons r rows)
  then obtain t ts' where "ts = t # ts'" by (cases ts) auto
  with Cons show ?case by (simp add: as_column_def)
qed



























section \<open>Interpolation at the samples\<close>

text \<open>
  C1. The claim: at every sample time \<open>t_i\<close>, each of the three policies returns the
  stored vector \<open>v_i\<close>. The source selects \<open>t_low\<close> and \<open>t_high\<close> with strict masks, so
  at an interior sample the sample itself is neither of them. Evaluated on \<open>three_knots\<close>
  at its middle sample (time 1, stored vector \<open>[2]\<close>): \<open>latest\<close> and \<open>nearest\<close> return
  the vector of the sample before, \<open>[1]\<close>, and \<open>linear\<close> returns the chord between the
  two neighbours, \<open>[5/2]\<close>.
\<close>

theorem interpolate_at_interior_knot:
  "wf_control three_knots \<and> times_c three_knots ! 1 = 1 \<and> control three_knots ! 1 = [2] \<and>
   interpolate three_knots 1 (PStr ''latest'') = Inr [1] \<and>
   interpolate three_knots 1 (PStr ''nearest'') = Inr [1] \<and>
   interpolate three_knots 1 (PStr ''linear'') = Inr [5 / 2]"
  using wf_three_knots by (simp add: three_knots_def interpolate_unfold upt_rec)

text \<open>
  C4. The claim as stated: on \<open>two_level\<close>, \<open>nearest\<close> returns \<open>[0,1]\<close> at time 0.24
  and \<open>[1,0]\<close> at time 0.26. It fails: 0.26 is still nearer to the sample at time 0.
\<close>

theorem nearest_two_level_counterexample:
  "\<not> (interpolate two_level (24 / 100) (PStr ''nearest'') = Inr [0, 1] \<and>
      interpolate two_level (26 / 100) (PStr ''nearest'') = Inr [1, 0])"
  by (simp add: two_level_def interpolate_unfold)

text \<open>
  C4, amended. \<open>two_level\<close> is what the constructor builds from the two component
  arrays and the time vector \<open>[0,1]\<close>; \<open>nearest\<close> returns \<open>[0,1]\<close> at time 0.24 and at
  time 0.26, and \<open>[1,0]\<close> past the midpoint, at time 0.76 (\<open>two_level_nearest_halves\<close>
  covers every time strictly between the two samples).
\<close>

theorem nearest_two_level:
  "control_init [ArrayArg (Arr1 Float64 [0, 1]), ArrayArg (Arr1 Float64 [1, 0]),
                 ArrayArg (Arr1 Float64 [0, 1])]
     [''interpolation'' \<mapsto> PStr ''nearest''] = Inr (two_level, []) \<and>
   interpolate two_level (24 / 100) (PStr ''nearest'') = Inr [0, 1] \<and>
   interpolate two_level (26 / 100) (PStr ''nearest'') = Inr [0, 1] \<and>
   interpolate two_level (76 / 100) (PStr ''nearest'') = Inr [1, 0]"
  by (simp add: two_level_def interpolate_unfold construct_unfold)

text \<open>
  C6. The claim: \<open>interpolate\<close> raises \<open>ValueError\<close> exactly when the time is strictly
  outside \<open>[t_min, t_max]\<close> or the policy is not recognised, the endpoints being valid.
  Evaluated on \<open>three_knots\<close>: at \<open>t_min = 0\<close> the lower mask is empty, \<open>t_low\<close> is the
  builtin float of \<open>timemin()\<close> and the search for it in \<open>self.times.tolist()\<close> raises
  \<open>ValueError\<close>; at \<open>t_max = 2\<close> the same happens for \<open>t_high\<close>. A time inside, 1/2, is
  answered. The lemmas \<open>interpolate_at_timemin\<close>, \<open>interpolate_at_timemax\<close> and
  \<open>interpolate_interior\<close> show the same for every well-formed waveform with float times.
\<close>

theorem interpolate_at_endpoints:
  "wf_control three_knots \<and> timemin three_knots = Inr 0 \<and> timemax three_knots = Inr 2 \<and>
   interpolate three_knots 0 (PStr ''latest'') = Inl ValueError \<and>
   interpolate three_knots 2 (PStr ''latest'') = Inl ValueError \<and>
   interpolate three_knots (1 / 2) (PStr ''latest'') = Inr [1]"
  using wf_three_knots by (simp add: three_knots_def interpolate_unfold)

text \<open>
  C7. An unrecognised policy name makes \<open>interpolate\<close> raise \<open>ValueError\<close>, for every
  waveform and time; given as the \<open>interpolation\<close> option to the constructor, it does not
  make a construction fail that succeeds without the option: the same object is built,
  with the policy \<open>latest\<close>, and the warning is emitted.
\<close>

theorem unrecognized_policy:
  assumes "s \<notin> set valid_inputs"
    and "control_init args (keyword_args(''interpolation'' := None)) = Inr (c, ws)"
  shows "interpolate w time (PStr s) = Inl ValueError \<and>
         control_init args (keyword_args(''interpolation'' \<mapsto> PStr s))
           = Inr (c, [interpolation_warning]) \<and>
         interpolation c = ''latest''"
proof -
  have a: "parse_interpolation (keyword_args(''interpolation'' := None)) = (''latest'', [])"
    by (simp add: parse_interpolation_def)
  have b: "parse_interpolation (keyword_args(''interpolation'' \<mapsto> PStr s))
           = (''latest'', [interpolation_warning])"
    using assms(1) by (simp add: parse_interpolation_def)
  have v: "parse_verbose (keyword_args(''interpolation'' \<mapsto> PStr s))
           = parse_verbose (keyword_args(''interpolation'' := None))"
    by (simp add: parse_verbose_def)
  have "control_init args (keyword_args(''interpolation'' \<mapsto> PStr s))
           = Inr (c, [interpolation_warning]) \<and> interpolation c = ''latest''"
    using assms(2) unfolding control_init_def a b v
    by (auto split: sum.splits prod.splits if_splits)
  then show ?thesis using interpolate_unrecognized [OF assms(1)] by simp
qed

theorem unrecognized_policy_witness:
  "''cubic'' \<notin> set valid_inputs \<and>
   control_init [ArrayArg (Arr2 Float64 3 [[0, 1, 0], [1, 0, 1]])]
     ([''interpolation'' \<mapsto> PStr ''linear''](''interpolation'' := None))
     = Inr (two_level\<lparr>interpolation := ''latest''\<rparr>, []) \<and>
   interpolate two_level (1 / 2) (PStr ''cubic'') = Inl ValueError \<and>
   control_init [ArrayArg (Arr2 Float64 3 [[0, 1, 0], [1, 0, 1]])]
     ([''interpolation'' \<mapsto> PStr ''linear''](''interpolation'' \<mapsto> PStr ''cubic''))
     = Inr (two_level\<lparr>interpolation := ''latest''\<rparr>, [interpolation_warning]) \<and>
   interpolation (two_level\<lparr>interpolation := ''latest''\<rparr>) = ''latest''"
proof -
  have h1: "''cubic'' \<notin> set valid_inputs" by (simp add: valid_inputs_def)
  have h2: "control_init [ArrayArg (Arr2 Float64 3 [[0, 1, 0], [1, 0, 1]])]
     ([''interpolation'' \<mapsto> PStr ''linear''](''interpolation'' := None))
     = Inr (two_level\<lparr>interpolation := ''latest''\<rparr>, [])"
    by (simp add: two_level_def construct_unfold)
  show ?thesis
    using h1 h2 unrecognized_policy [OF h1 h2, of two_level "1 / 2"] by simp
qed

text \<open>
  C10. Called with a number of positional arguments other than one or two, a waveform
  returns \<open>None\<close> and raises nothing.
\<close>

theorem call_other_arity:
  assumes "length args \<noteq> 1" and "length args \<noteq> 2"
  shows "dunder_call w args = Inr RNone"
  using assms by (simp add: dunder_call_def)

theorem call_other_arity_witness:
  "length ([] :: callarg list) \<noteq> 1 \<and> length ([] :: callarg list) \<noteq> 2 \<and>
   dunder_call xyz_pulse [] = Inr RNone \<and>
   length [FloatArg 1, FloatArg 2, FloatArg 3] \<noteq> 1 \<and>
   length [FloatArg 1, FloatArg 2, FloatArg 3] \<noteq> 2 \<and>
   dunder_call xyz_pulse [FloatArg 1, FloatArg 2, FloatArg 3] = Inr RNone"
  using call_other_arity [of "[]" xyz_pulse] call_other_arity [of "[FloatArg 1, FloatArg 2, FloatArg 3]" xyz_pulse]
  by simp

section \<open>Inverse and arc length\<close>

text \<open>
  C5. The claim as stated: the sample times of \<open>inverse(w)\<close> are still strictly
  increasing. It fails for \<open>close_samples\<close>: the float differences \<open>1 - 2 ^ -60\<close> and
  \<open>1 - 0\<close> are both 1, and the times \<open>[0, 2 ^ -60, 1]\<close> come back as \<open>[0, 1, 1]\<close>.
\<close>

theorem inverse_times_counterexample:
  "wf_control close_samples \<and> well_typed close_samples \<and>
   inverse_c close_samples
     = Inr (close_samples\<lparr>times_c := [0, 1, 1], control := [[- 3], [- 2], [- 1]]\<rparr>) \<and>
   \<not> sorted_wrt (<) (times_c (close_samples\<lparr>times_c := [0, 1, 1],
                                   control := [[- 3], [- 2], [- 1]]\<rparr>))"
  using wf_close_samples typed_close_samples fsub_close
  by (simp add: close_samples_def inverse_c_def copy_def timemax_def construct_unfold
      to_float_def fsub_def fl_zero fl_one)

text \<open>
  C5, amended. For a well-formed waveform with \<open>n\<close> samples whose time span does not
  overflow, \<open>inverse\<close> returns a waveform whose time at index \<open>n-1-i\<close> is the float
  difference of \<open>t_max\<close> and \<open>t_i\<close>, whose vector at index \<open>i\<close> is the former vector at
  index \<open>n-1-i\<close> negated in the element type of the copy (exactly negated when the
  control array is \<open>float64\<close>), and whose times are non-decreasing.
\<close>

theorem inverse_reverses_negates:
  assumes wf: "wf_control w" and fin: "span_finite w"
  shows "\<exists>c tmax. inverse_c w = Inr c \<and> timemax w = Inr tmax \<and>
     length (times_c c) = length (times_c w) \<and>
     length (control c) = length (control w) \<and>
     times_dtype c = Float64 \<and>
     control_dtype c = result_type (control_dtype w) (times_dtype w) \<and>
     (\<forall>i < length (times_c w).
        times_c c ! (length (times_c w) - 1 - i)
          = fsub tmax (to_float (times_dtype w) (times_c w ! i))) \<and>
     (\<forall>i < length (control w).
        control c ! i
          = map (\<lambda>x. negate (control_dtype c) (cast (control_dtype w) (control_dtype c) x))
              (control w ! (length (control w) - 1 - i))) \<and>
     (control_dtype w = Float64 \<longrightarrow>
        (\<forall>i < length (control w).
           control c ! i = map uminus (control w ! (length (control w) - 1 - i)))) \<and>
     sorted (times_c c)"
proof -
  let ?n = "length (times_c w)"
  let ?T = "to_float (times_dtype w) (last (times_c w))"
  let ?c = "inverted w"
  have sh: "shaped w" using wf by (rule wf_shaped)
  have inv: "inverse_c w = Inr ?c" by (rule inverse_c_shaped [OF sh])
  have tmax: "timemax w = Inr ?T" by (rule timemax_shaped [OF sh])
  have t: "times_c ?c ! (?n - 1 - i) = fsub ?T (to_float (times_dtype w) (times_c w ! i))"
    if "i < ?n" for i
    using that by simp (simp add: rev_nth_flip)
  have v: "control ?c ! i
      = map (\<lambda>x. negate (control_dtype ?c) (cast (control_dtype w) (control_dtype ?c) x))
          (control w ! (length (control w) - 1 - i))"
    if "i < length (control w)" for i
    using that by (simp add: rev_nth)
  have vf: "control ?c ! i = map uminus (control w ! (length (control w) - 1 - i))"
    if "i < length (control w)" "control_dtype w = Float64" for i
    using that by (simp add: rev_nth result_type_def)
  have s: "sorted (times_c ?c)"
    using shaped_inverted [OF sh] by (simp add: shaped_def)
  show ?thesis
    using inv tmax t v vf s by (intro exI [of _ ?c] exI [of _ ?T]) simp
qed

theorem inverse_reverses_negates_witness:
  "wf_control xyz_pulse \<and> span_finite xyz_pulse \<and>
   inverse_c xyz_pulse
     = Inr (xyz_pulse\<lparr>times_c := [0, 2, 3],
              control := [[0, 0, - 2], [- 1, 0, 0], [- 3, - 4, 0]]\<rparr>) \<and>
   timemax xyz_pulse = Inr 4"
  using wf_xyz_pulse span_xyz_pulse inverse_reverses_negates [OF wf_xyz_pulse span_xyz_pulse]
  by (simp add: xyz_pulse_def inverse_unfold)







section \<open>The detuning error model on a waveform\<close>

text \<open>
  C9. The claim as stated: column 2 of the caller's control array is overwritten with
  \<open>delta\<close>. It fails for \<open>xyz_counts\<close>, whose arrays are \<open>int64\<close>: the default \<open>delta\<close>,
  the float nearest to 0.1, is stored as 0.
\<close>

theorem detuning_call_counterexample:
  "wf_control xyz_counts \<and> control_dtype xyz_counts = Int64 \<and>
   delta_of ParNone = Inr (fl (1 / 10)) \<and>
   detuning_call xyz_counts ParNone =
     (Inr (xyz_counts\<lparr>control := [[3, 4, 0], [1, 0, 0], [0, 0, 0]],
                       interpolation := ''latest'', verbose := False\<rparr>, []),
      xyz_counts\<lparr>control := [[3, 4, 0], [1, 0, 0], [0, 0, 0]]\<rparr>) \<and>
   \<not> list_all (\<lambda>r. r ! 2 = fl (1 / 10)) [[3, 4, 0], [1, 0, 0], [0, 0, 0]]"
proof -
  have ne: "fl (1 / 10) \<noteq> 0" using fl_tenth_bounds(1) by linarith
  have d: "delta_of ParNone = Inr (fl (1 / 10))" by (simp add: default_parameters_def)
  have "detuning_call xyz_counts ParNone =
     (Inr (xyz_counts\<lparr>control := [[3, 4, 0], [1, 0, 0], [0, 0, 0]],
                       interpolation := ''latest'', verbose := False\<rparr>, []),
      xyz_counts\<lparr>control := [[3, 4, 0], [1, 0, 0], [0, 0, 0]]\<rparr>)"
    unfolding detuning_call_def d
    using trunc_tenth
    by (simp add: xyz_counts_def xyz_pulse_def construct_unfold del: cast.simps)
       (simp add: result_type_def)
  then show ?thesis using ne d wf_xyz_counts by (simp add: xyz_counts_def)
qed

text \<open>
  C9, amended. On a well-formed waveform with at least three components, \<open>call\<close>
  overwrites column 2 of the caller's own control array with \<open>delta\<close> converted to the
  element type of that array (\<open>delta\<close> itself in a \<open>float64\<close> array), leaves its times as
  they are (the object stays well-formed), and returns a newly constructed waveform with
  the same times and the overwritten array, in the common element type of the two
  arrays. With fewer than three components the call fails and the caller's object is
  unchanged.
\<close>

theorem detuning_call_effect:
  assumes "wf_control w"
  shows "(3 \<le> number_controls w \<longrightarrow>
            (\<forall>d. delta_of p = Inr d \<longrightarrow>
               detuning_call w p =
                 (Inr (\<lparr>times_c = times_c w,
                         control =
                           map (map (cast (control_dtype w)
                                       (result_type (control_dtype w) (times_dtype w))))
                             (map (\<lambda>r. r[2 := cast Float64 (control_dtype w) d]) (control w)),
                         number_controls = number_controls w,
                         dimension = number_controls w,
                         interpolation = ''latest'', verbose = False,
                         times_dtype = times_dtype w,
                         control_dtype = result_type (control_dtype w) (times_dtype w)\<rparr>, []),
                  w\<lparr>control := map (\<lambda>r. r[2 := cast Float64 (control_dtype w) d]) (control w)\<rparr>) \<and>
               wf_control
                 (w\<lparr>control := map (\<lambda>r. r[2 := cast Float64 (control_dtype w) d]) (control w)\<rparr>) \<and>
               list_all (\<lambda>r. r ! 2 = cast Float64 (control_dtype w) d)
                 (map (\<lambda>r. r[2 := cast Float64 (control_dtype w) d]) (control w)) \<and>
               (control_dtype w = Float64 \<longrightarrow>
                  list_all (\<lambda>r. r ! 2 = d)
                    (map (\<lambda>r. r[2 := cast Float64 (control_dtype w) d]) (control w))))) \<and>
         (number_controls w < 3 \<longrightarrow> detuning_call w p = (Inl IndexError, w))"
proof (intro conjI impI allI)
  fix d
  assume k: "3 \<le> number_controls w" and d: "delta_of p = Inr d"
  let ?v = "cast Float64 (control_dtype w) d"
  let ?rows = "map (\<lambda>r. r[2 := ?v]) (control w)"
  have len: "length ?rows = length (times_c w)"
    using assms by (simp add: wf_control_def)
  have shape: "list_all (\<lambda>r. length r = number_controls w) ?rows"
    using assms by (simp add: wf_control_def list_all_iff)
  show "detuning_call w p =
          (Inr (\<lparr>times_c = times_c w,
                  control = map (map (cast (control_dtype w)
                                   (result_type (control_dtype w) (times_dtype w)))) ?rows,
                  number_controls = number_controls w, dimension = number_controls w,
                  interpolation = ''latest'', verbose = False,
                  times_dtype = times_dtype w,
                  control_dtype = result_type (control_dtype w) (times_dtype w)\<rparr>, []),
           w\<lparr>control := ?rows\<rparr>)"
    using k d control_init_pair [OF len shape, of "control_dtype w" "times_dtype w"]
    by (simp add: detuning_call_def)
  show "wf_control (w\<lparr>control := ?rows\<rparr>)"
    using assms by (simp add: wf_control_def list_all_iff)
  show all: "list_all (\<lambda>r. r ! 2 = ?v) ?rows"
    using assms k by (auto simp: wf_control_def list_all_iff)
  show "list_all (\<lambda>r. r ! 2 = d) ?rows" if "control_dtype w = Float64"
    using all that by simp
next
  assume "number_controls w < 3"
  then show "detuning_call w p = (Inl IndexError, w)"
    by (auto simp: detuning_call_def split: sum.splits dest: delta_of_error)
qed

theorem detuning_call_witness:
  "wf_control xyz_pulse \<and> 3 \<le> number_controls xyz_pulse \<and>
   delta_of ParNone = Inr (fl (1 / 10)) \<and>
   detuning_call xyz_pulse ParNone =
     (Inr (xyz_pulse\<lparr>control := [[3, 4, fl (1 / 10)], [1, 0, fl (1 / 10)], [0, 0, fl (1 / 10)]],
                      interpolation := ''latest'', verbose := False\<rparr>, []),
      xyz_pulse\<lparr>control := [[3, 4, fl (1 / 10)], [1, 0, fl (1 / 10)], [0, 0, fl (1 / 10)]]\<rparr>) \<and>
   wf_control two_level \<and> number_controls two_level < 3 \<and>
   detuning_call two_level (ParScalar 5) = (Inl IndexError, two_level)"
proof -
  have a: "3 \<le> number_controls xyz_pulse" by (simp add: xyz_pulse_def)
  have b: "delta_of ParNone = Inr (fl (1 / 10))" by (simp add: default_parameters_def)
  have c: "number_controls two_level < 3" by (simp add: two_level_def)
  note first = detuning_call_effect [OF wf_xyz_pulse, of ParNone, THEN conjunct1, rule_format, OF a b, THEN conjunct1]
  note second = detuning_call_effect [OF wf_two_level, of "ParScalar 5", THEN conjunct2, rule_format, OF c]
  show ?thesis
    using first second a b c wf_xyz_pulse wf_two_level
    by (simp add: xyz_pulse_def result_type_def)
qed

section \<open>Saving and loading a waveform\<close>




end
